theory Spec2Isabelle
  imports Complex_Main "HOL-Library.Word" "HOL-Library.AList"
begin

unbundle bit_operations_syntax

section \<open>Python values, exceptions and dictionaries\<close>

text \<open>
  The extension module exchanges Python objects with its callers. Only the shapes the
  module inspects are distinguished: integers (unbounded), floats (the C \<open>double\<close>, kept
  abstract as the type parameter \<open>'d\<close>), booleans, strings, \<open>None\<close> and lists.
\<close>

datatype 'd pyobj =
    PyLong int
  | PyFloat 'd
  | PyBool bool
  | PyUnicode string
  | PyNone
  | PyList "'d pyobj list"

datatype pyexc =
    TypeError string
  | ValueError string
  | RuntimeError string
  | PermissionError string
  | OverflowError string
  | SystemError string
  | SystemExit int
  | OtherException string

type_synonym 'd pydict = "(string \<times> 'd pyobj) list"

text \<open>\<open>PyList_Check\<close>: is the object a list.\<close>

fun PyList_Check :: "'d pyobj \<Rightarrow> bool" where
  "PyList_Check (PyList xs) = True"
| "PyList_Check x = False"

text \<open>\<open>PyLong_Check\<close>: true on \<open>int\<close> and its subclasses; \<open>bool\<close> is one.\<close>

fun PyLong_Check :: "'d pyobj \<Rightarrow> bool" where
  "PyLong_Check (PyLong v) = True"
| "PyLong_Check (PyBool b) = True"
| "PyLong_Check x = False"

text \<open>
  \<open>PyLong_AsLong\<close>: the value as a C \<open>long\<close> (64 bits on the platform), and the exception
  the call leaves pending, if any: for an integer that does not fit, the value is \<open>-1\<close> and
  an OverflowError is pending.
\<close>

fun PyLong_AsLong :: "'d pyobj \<Rightarrow> 64 word \<times> pyexc option" where
  "PyLong_AsLong (PyLong v) =
     (if - (2 ^ 63) \<le> v \<and> v < 2 ^ 63 then (word_of_int v, None)
      else (- 1, Some (OverflowError ''Python int too large to convert to C long'')))"
| "PyLong_AsLong (PyBool b) = ((if b then 1 else 0), None)"
| "PyLong_AsLong x = (- 1, Some (TypeError ''an integer is required''))"

text \<open>The integers \<open>PyLong_AsLong\<close> converts without an error.\<close>

fun withinCLong :: "'d pyobj \<Rightarrow> bool" where
  "withinCLong (PyLong v) = (- (2 ^ 63) \<le> v \<and> v < 2 ^ 63)"
| "withinCLong (PyBool b) = True"
| "withinCLong x = False"

text \<open>
  Setting the error indicator: an exception raised inside a call replaces what was
  pending; a call that raises nothing leaves the indicator as it was.
\<close>

definition raisePending :: "pyexc option \<Rightarrow> pyexc option \<Rightarrow> pyexc option" where
  "raisePending raised pending = (case raised of None \<Rightarrow> pending | Some e \<Rightarrow> Some e)"

text \<open>
  What the interpreter makes of an extension function that returns an object while an
  exception is pending: the caller gets a SystemError.
\<close>

definition ResultWithErrorSet :: pyexc where
  "ResultWithErrorSet =
     SystemError ''<built-in function setEatKeys> returned a result with an exception set''"

definition Py_RETURN_NONE :: "pyexc option \<Rightarrow> pyexc + unit" where
  "Py_RETURN_NONE pending = (case pending of None \<Rightarrow> Inr () | Some e \<Rightarrow> Inl ResultWithErrorSet)"

text \<open>\<open>PyLong_FromLong\<close>, \<open>PyBool_FromLong\<close> on a C \<open>long\<close>.\<close>

definition PyLong_FromLong :: "64 word \<Rightarrow> 'd pyobj" where
  "PyLong_FromLong v = PyLong (sint v)"

definition PyBool_FromLong :: "64 word \<Rightarrow> 'd pyobj" where
  "PyBool_FromLong v = PyBool (v \<noteq> 0)"

text \<open>\<open>PyDict_SetItemString\<close>: insert or overwrite, keeping insertion order.\<close>

definition PyDict_SetItemString :: "'d pydict \<Rightarrow> string \<Rightarrow> 'd pyobj \<Rightarrow> 'd pydict" where
  "PyDict_SetItemString d k v = AList.update k v d"

section \<open>Constants\<close>

definition MAX_EAT_KEYS :: nat where
  "MAX_EAT_KEYS = 1024"

text \<open>
  The event type tags (\<open>CGEventType\<close>, an unsigned 32-bit integer) and modifier masks
  (\<open>CGEventFlags\<close>, 64 bits) come from the platform header \<open>CGEventTypes.h\<close>.
\<close>

definition kCGEventLeftMouseDown :: "32 word" where "kCGEventLeftMouseDown = 1"
definition kCGEventLeftMouseUp :: "32 word" where "kCGEventLeftMouseUp = 2"
definition kCGEventRightMouseDown :: "32 word" where "kCGEventRightMouseDown = 3"
definition kCGEventRightMouseUp :: "32 word" where "kCGEventRightMouseUp = 4"
definition kCGEventMouseMoved :: "32 word" where "kCGEventMouseMoved = 5"
definition kCGEventLeftMouseDragged :: "32 word" where "kCGEventLeftMouseDragged = 6"
definition kCGEventRightMouseDragged :: "32 word" where "kCGEventRightMouseDragged = 7"
definition kCGEventKeyDown :: "32 word" where "kCGEventKeyDown = 10"
definition kCGEventKeyUp :: "32 word" where "kCGEventKeyUp = 11"
definition kCGEventOtherMouseDown :: "32 word" where "kCGEventOtherMouseDown = 25"
definition kCGEventOtherMouseUp :: "32 word" where "kCGEventOtherMouseUp = 26"

definition kCGEventFlagMaskAlphaShift :: "64 word" where "kCGEventFlagMaskAlphaShift = 0x10000"
definition kCGEventFlagMaskShift :: "64 word" where "kCGEventFlagMaskShift = 0x20000"
definition kCGEventFlagMaskControl :: "64 word" where "kCGEventFlagMaskControl = 0x40000"
definition kCGEventFlagMaskAlternate :: "64 word" where "kCGEventFlagMaskAlternate = 0x80000"
definition kCGEventFlagMaskCommand :: "64 word" where "kCGEventFlagMaskCommand = 0x100000"

section \<open>The listener's globals\<close>

text \<open>
  The module's static variables, as one record. \<open>callbackObj\<close> holds the identity of the
  registered callback object (\<open>None\<close> is \<open>NULL\<close>); \<open>eatKeys\<close> is the fixed array of
  \<open>MAX_EAT_KEYS\<close> C ints, of which the first \<open>numEatKeys\<close> are in use. \<open>mutexLive\<close> tells
  whether \<open>eatKeysMutex\<close> is initialised, \<open>spawned\<close> counts the capture threads created
  so far, and \<open>refcnt\<close> is the reference count of each callback object. Locking and
  unlocking the mutex leave no trace in a sequential run and are not recorded.
\<close>

record listener =
  callbackObj :: "nat option"
  listenerRunning :: int
  eatKeys :: "32 word list"
  numEatKeys :: nat
  mutexLive :: bool
  spawned :: nat
  refcnt :: "nat \<Rightarrow> int"

text \<open>
  The state of a freshly loaded module: every static is zero, and each callback object is
  held once, by its creator.
\<close>

definition initial_listener :: listener where
  "initial_listener =
     \<lparr>callbackObj = None, listenerRunning = 0, eatKeys = replicate 1024 0,
      numEatKeys = 0, mutexLive = False, spawned = 0, refcnt = (\<lambda>c. 1)\<rparr>"

text \<open>The suppression registry: the part of the array in use.\<close>

definition registry :: "listener \<Rightarrow> 32 word list" where
  "registry st = take (numEatKeys st) (eatKeys st)"

text \<open>The array has its declared size and the count stays within it.\<close>

definition wf_listener :: "listener \<Rightarrow> bool" where
  "wf_listener st = (length (eatKeys st) = MAX_EAT_KEYS \<and> numEatKeys st \<le> MAX_EAT_KEYS)"

definition Py_INCREF :: "nat \<Rightarrow> listener \<Rightarrow> listener" where
  "Py_INCREF c st = st\<lparr>refcnt := (refcnt st)(c := refcnt st c + 1)\<rparr>"

definition Py_DECREF :: "nat \<Rightarrow> listener \<Rightarrow> listener" where
  "Py_DECREF c st = st\<lparr>refcnt := (refcnt st)(c := refcnt st c - 1)\<rparr>"

definition Py_XDECREF :: "nat option \<Rightarrow> listener \<Rightarrow> listener" where
  "Py_XDECREF p st = (case p of None \<Rightarrow> st | Some c \<Rightarrow> Py_DECREF c st)"

section \<open>Lifecycle: start, stop, isRunning\<close>

text \<open>The error values of the public operations, under the names the design gives them.\<close>

definition AlreadyRunning :: pyexc where
  "AlreadyRunning = RuntimeError ''Listener already running''"

definition PermissionDenied :: pyexc where
  "PermissionDenied = PermissionError
     (''Accessibility permission required. Go to System Preferences > '' @
      ''Security & Privacy > Privacy > Accessibility and add Python/Terminal'')"

definition ThreadSpawnFailed :: pyexc where
  "ThreadSpawnFailed = RuntimeError ''Failed to create thread''"

definition TooMany :: pyexc where
  "TooMany = ValueError ''Too many keys to eat (max 1024)''"

definition InvalidEntry :: pyexc where
  "InvalidEntry = TypeError ''All items must be integers''"

text \<open>
  \<open>pthread_create\<close>: the platform decides; \<open>err\<close> is its return code. A thread exists
  afterwards exactly when the code is 0.
\<close>

definition pthread_create :: "int \<Rightarrow> listener \<Rightarrow> listener" where
  "pthread_create err st = (if err = 0 then st\<lparr>spawned := spawned st + 1\<rparr> else st)"

text \<open>
  \<open>listenerStart\<close>. The environment supplies \<open>callable\<close> (\<open>PyCallable_Check\<close>),
  \<open>trusted\<close> (\<open>AXIsProcessTrusted\<close>) and \<open>err\<close> (what \<open>pthread_create\<close> returns). On the
  failure path \<open>callbackObj\<close> is the callback just stored, so \<open>Py_DECREF(callbackObj)\<close>
  is \<open>Py_DECREF callback\<close>.
\<close>

definition listenerStart ::
  "(nat \<Rightarrow> bool) \<Rightarrow> bool \<Rightarrow> int \<Rightarrow> nat \<Rightarrow> listener \<Rightarrow> (pyexc + unit) \<times> listener" where
  "listenerStart callable trusted err callback st =
     (if \<not> callable callback then (Inl (TypeError ''Callback must be callable''), st)
      else if listenerRunning st \<noteq> 0 then (Inl AlreadyRunning, st)
      else if \<not> trusted then (Inl PermissionDenied, st)
      else
        let st1 = st\<lparr>mutexLive := True, numEatKeys := 0\<rparr>;
            st2 = Py_INCREF callback st1;
            st3 = Py_XDECREF (callbackObj st2) st2;
            st4 = st3\<lparr>callbackObj := Some callback\<rparr>;
            st5 = pthread_create err st4
        in if err \<noteq> 0
           then (Inl ThreadSpawnFailed,
                 (Py_DECREF callback st5)\<lparr>callbackObj := None, mutexLive := False\<rparr>)
           else (Inr (), st5\<lparr>listenerRunning := 1\<rparr>))"

text \<open>
  \<open>listenerStop\<close>. Stopping the run loop, joining the thread and releasing the tap act on
  the capture thread's own objects; what remains in the globals is below.
\<close>

definition listenerStop :: "listener \<Rightarrow> listener" where
  "listenerStop st =
     (if listenerRunning st = 0 then st
      else (Py_XDECREF (callbackObj st) st)
             \<lparr>callbackObj := None, listenerRunning := 0, mutexLive := False\<rparr>)"

definition listenerIsRunning :: "listener \<Rightarrow> bool" where
  "listenerIsRunning st = (listenerRunning st \<noteq> 0)"

section \<open>The suppression registry\<close>

text \<open>
  The body of the fill loop of \<open>listenerSetEatKeys\<close>, over the items still to visit, with
  the error indicator as the conversions so far have left it. A non-integer item ends the
  call with an error (\<open>Inl\<close>), at the point the loop has reached; an integer is stored as
  \<open>(int)PyLong_AsLong(item)\<close> (\<open>asCInt\<close>), the low 32 bits of the C long, and what the
  conversion raised stays pending, since the loop never looks at it. At the end of the
  list the loop hands on the indicator (\<open>Inr\<close>).
\<close>

definition asCInt :: "'d pyobj \<Rightarrow> 32 word" where
  "asCInt item = ucast (fst (PyLong_AsLong item))"

fun fillEatKeys ::
  "'d pyobj list \<Rightarrow> pyexc option \<Rightarrow> listener \<Rightarrow> (pyexc + pyexc option) \<times> listener" where
  "fillEatKeys [] pending st = (Inr pending, st)"
| "fillEatKeys (item # rest) pending st =
     (if \<not> PyLong_Check item then (Inl InvalidEntry, st)
      else fillEatKeys rest (raisePending (snd (PyLong_AsLong item)) pending)
             (st\<lparr>eatKeys := (eatKeys st)[numEatKeys st := asCInt item],
                 numEatKeys := numEatKeys st + 1\<rparr>))"

text \<open>
  \<open>listenerSetEatKeys\<close>. After the loop the function returns \<open>None\<close>, whatever is pending.
\<close>

definition listenerSetEatKeys :: "'d pyobj \<Rightarrow> listener \<Rightarrow> (pyexc + unit) \<times> listener" where
  "listenerSetEatKeys keyList st =
     (case keyList of
        PyList items \<Rightarrow>
          if length items > MAX_EAT_KEYS then (Inl TooMany, st)
          else (case fillEatKeys items None (st\<lparr>numEatKeys := 0\<rparr>) of
                  (Inl e, st') \<Rightarrow> (Inl e, st')
                | (Inr pending, st') \<Rightarrow> (Py_RETURN_NONE pending, st'))
      | _ \<Rightarrow> (Inl (TypeError ''Argument must be a list''), st))"

text \<open>
  \<open>shouldEatKey\<close>: the linear scan of the array from index \<open>i\<close>, comparing each C int
  with the 16-bit key code widened to int.
\<close>

function scanEatKeys :: "listener \<Rightarrow> 16 word \<Rightarrow> nat \<Rightarrow> int" where
  "scanEatKeys st keyCode i =
     (if i < numEatKeys st
      then (if eatKeys st ! i = ucast keyCode then 1 else scanEatKeys st keyCode (i + 1))
      else 0)"
  by pat_completeness auto
termination
  by (relation "measure (\<lambda>(st, keyCode, i). numEatKeys st - i)") auto

declare scanEatKeys.simps [simp del]

definition shouldEatKey :: "listener \<Rightarrow> 16 word \<Rightarrow> int" where
  "shouldEatKey st keyCode = scanEatKeys st keyCode 0"

section \<open>The capture thread: mask and per-event handler\<close>

text \<open>
  The mask built by \<open>eventLoopThread\<close>: each \<open>1 << type\<close> is a C int, the disjunction
  is converted to the 64-bit \<open>CGEventMask\<close>.
\<close>

definition eventMask :: "64 word" where
  "eventMask = scast
     (push_bit (unat kCGEventKeyDown) (1 :: 32 word) OR
      push_bit (unat kCGEventKeyUp) 1 OR
      push_bit (unat kCGEventLeftMouseDown) 1 OR
      push_bit (unat kCGEventLeftMouseUp) 1 OR
      push_bit (unat kCGEventRightMouseDown) 1 OR
      push_bit (unat kCGEventRightMouseUp) 1 OR
      push_bit (unat kCGEventOtherMouseDown) 1 OR
      push_bit (unat kCGEventOtherMouseUp) 1 OR
      push_bit (unat kCGEventMouseMoved) 1 OR
      push_bit (unat kCGEventLeftMouseDragged) 1 OR
      push_bit (unat kCGEventRightMouseDragged) 1)"

text \<open>
  The platform delivers to the tap the events whose bit, \<open>CGEventMaskBit(type)\<close>, that is
  \<open>(CGEventMask)1 << type\<close>, is set in the mask.
\<close>

definition acceptedByMask :: "64 word \<Rightarrow> 32 word \<Rightarrow> bool" where
  "acceptedByMask msk type = (msk AND push_bit (unat type) 1 \<noteq> 0)"

text \<open>
  A raw event, as far as the handler reads it: the timestamp (\<open>CGEventGetTimestamp\<close>,
  nanoseconds), the integer value fields (\<open>CGEventGetIntegerValueField\<close>, each an
  \<open>int64_t\<close>), the flags and the location.
\<close>

record 'd cgevent =
  evTimestamp :: "64 word"
  evKeycode :: "64 word"
  evKeyboardType :: "64 word"
  evFlags :: "64 word"
  evButtonNumber :: "64 word"
  evClickState :: "64 word"
  evLocationX :: 'd
  evLocationY :: 'd

text \<open>
  The key code the handler works with:
  \<open>(CGKeyCode)CGEventGetIntegerValueField(event, kCGKeyboardEventKeycode)\<close>, where
  \<open>CGKeyCode\<close> is an unsigned 16-bit integer.
\<close>

definition eventKeyCode :: "'d cgevent \<Rightarrow> 16 word" where
  "eventKeyCode ev = ucast (evKeycode ev)"

text \<open>The three conditions of the handler's chain of tests on the event type.\<close>

definition isKeyEvent :: "32 word \<Rightarrow> bool" where
  "isKeyEvent type = (type = kCGEventKeyDown \<or> type = kCGEventKeyUp)"

definition isButtonEvent :: "32 word \<Rightarrow> bool" where
  "isButtonEvent type =
     (type = kCGEventLeftMouseDown \<or> type = kCGEventLeftMouseUp \<or>
      type = kCGEventRightMouseDown \<or> type = kCGEventRightMouseUp \<or>
      type = kCGEventOtherMouseDown \<or> type = kCGEventOtherMouseUp)"

definition isMotionEvent :: "32 word \<Rightarrow> bool" where
  "isMotionEvent type =
     (type = kCGEventMouseMoved \<or> type = kCGEventLeftMouseDragged \<or>
      type = kCGEventRightMouseDragged)"

text \<open>The verdict: the handler returns the event (allow) or \<open>NULL\<close> (suppress).\<close>

datatype verdict = Allow | Suppress

text \<open>The first part of \<open>eventCallback\<close>: the value of \<open>returnEvent\<close> before dispatch.\<close>

definition returnEvent_decision :: "listener \<Rightarrow> 32 word \<Rightarrow> 'd cgevent \<Rightarrow> verdict" where
  "returnEvent_decision st type ev =
     (if isKeyEvent type
      then (if shouldEatKey st (eventKeyCode ev) \<noteq> 0 then Suppress else Allow)
      else Allow)"

text \<open>
  The category strings. \<open>typeStr\<close> starts as \<open>NULL\<close> (\<open>None\<close>) and is set by the first
  matching comparison; \<open>PyUnicode_FromString\<close> on \<open>NULL\<close> is a fault of the process.
\<close>

definition buttonTypeStr :: "32 word \<Rightarrow> string option" where
  "buttonTypeStr type =
     (if type = kCGEventLeftMouseDown then Some ''leftMouseDown''
      else if type = kCGEventLeftMouseUp then Some ''leftMouseUp''
      else if type = kCGEventRightMouseDown then Some ''rightMouseDown''
      else if type = kCGEventRightMouseUp then Some ''rightMouseUp''
      else if type = kCGEventOtherMouseDown then Some ''otherMouseDown''
      else if type = kCGEventOtherMouseUp then Some ''otherMouseUp''
      else None)"

definition motionTypeStr :: "32 word \<Rightarrow> string option" where
  "motionTypeStr type =
     (if type = kCGEventMouseMoved then Some ''mouseMoved''
      else if type = kCGEventLeftMouseDragged then Some ''leftMouseDragged''
      else if type = kCGEventRightMouseDragged then Some ''rightMouseDragged''
      else None)"

definition PyUnicode_FromString :: "string option \<Rightarrow> 'd pyobj option" where
  "PyUnicode_FromString s = map_option PyUnicode s"

text \<open>
  The second part of \<open>eventCallback\<close>: the dictionary handed to the callback. \<open>seconds\<close>
  is the platform's floating-point computation \<open>(double)timestamp / 1e9\<close>. The result is
  \<open>None\<close> where the process would fault.
\<close>

definition eventDict :: "(64 word \<Rightarrow> 'd) \<Rightarrow> 32 word \<Rightarrow> 'd cgevent \<Rightarrow> 'd pydict option" where
  "eventDict seconds type ev =
     (let d0 = PyDict_SetItemString [] ''timestamp'' (PyFloat (seconds (evTimestamp ev)))
      in
      if isKeyEvent type then
        (case PyUnicode_FromString
                (Some (if type = kCGEventKeyDown then ''keydown'' else ''keyup'')) of
           None \<Rightarrow> None
         | Some s \<Rightarrow>
             let d1 = PyDict_SetItemString d0 ''eventType'' s;
                 keyCode = eventKeyCode ev;
                 d2 = PyDict_SetItemString d1 ''keyCode'' (PyLong_FromLong (ucast keyCode));
                 keyboardType = evKeyboardType ev;
                 d3 = PyDict_SetItemString d2 ''keyboardType'' (PyLong_FromLong keyboardType);
                 flags = evFlags ev;
                 d4 = PyDict_SetItemString d3 ''shift''
                        (PyBool_FromLong (flags AND kCGEventFlagMaskShift));
                 d5 = PyDict_SetItemString d4 ''control''
                        (PyBool_FromLong (flags AND kCGEventFlagMaskControl));
                 d6 = PyDict_SetItemString d5 ''alt''
                        (PyBool_FromLong (flags AND kCGEventFlagMaskAlternate));
                 d7 = PyDict_SetItemString d6 ''command''
                        (PyBool_FromLong (flags AND kCGEventFlagMaskCommand));
                 d8 = PyDict_SetItemString d7 ''capsLock''
                        (PyBool_FromLong (flags AND kCGEventFlagMaskAlphaShift))
             in Some d8)
      else if isButtonEvent type then
        (case PyUnicode_FromString (buttonTypeStr type) of
           None \<Rightarrow> None
         | Some s \<Rightarrow>
             let d1 = PyDict_SetItemString d0 ''eventType'' s;
                 d2 = PyDict_SetItemString d1 ''button'' (PyLong_FromLong (evButtonNumber ev));
                 d3 = PyDict_SetItemString d2 ''clickState'' (PyLong_FromLong (evClickState ev));
                 d4 = PyDict_SetItemString d3 ''x'' (PyFloat (evLocationX ev));
                 d5 = PyDict_SetItemString d4 ''y'' (PyFloat (evLocationY ev))
             in Some d5)
      else if isMotionEvent type then
        (case PyUnicode_FromString (motionTypeStr type) of
           None \<Rightarrow> None
         | Some s \<Rightarrow>
             let d1 = PyDict_SetItemString d0 ''eventType'' s;
                 d2 = PyDict_SetItemString d1 ''x'' (PyFloat (evLocationX ev));
                 d3 = PyDict_SetItemString d2 ''y'' (PyFloat (evLocationY ev))
             in Some d3)
      else Some d0)"

text \<open>
  The handler's local state and its effects on the interpreter: the value of
  \<open>returnEvent\<close>, the callback invocations made (callee and argument), what
  \<open>PyErr_Print\<close> wrote, and Python's pending-error indicator.
\<close>

record 'd outcome =
  returnEvent :: verdict
  invocations :: "(nat \<times> 'd pydict) list"
  printed :: "pyexc list"
  errorPending :: "pyexc option"

text \<open>
  How a run goes on: it returns, in the state given, or the process ends in \<open>Py_Exit\<close> with
  an exit code, in the state reached by then.
\<close>

datatype 'd run = Returns "'d outcome" | Py_Exit int "'d outcome"

text \<open>The exit code an exception carries: only SystemExit has one.\<close>

fun exitCode :: "pyexc \<Rightarrow> int option" where
  "exitCode (SystemExit code) = Some code"
| "exitCode e = None"

text \<open>
  \<open>PyErr_Print\<close>: when the pending exception is SystemExit the process exits with its
  code and the call does not return; any other pending exception is written to stderr and
  cleared.
\<close>

definition PyErr_Print :: "'d outcome \<Rightarrow> 'd run" where
  "PyErr_Print out =
     (case errorPending out of
        None \<Rightarrow> Returns out
      | Some e \<Rightarrow>
          (case exitCode e of
             Some code \<Rightarrow> Py_Exit code out
           | None \<Rightarrow> Returns (out\<lparr>printed := printed out @ [e], errorPending := None\<rparr>)))"

text \<open>
  \<open>PyObject_CallFunctionObjArgs(callbackObj, eventDict, NULL)\<close>: \<open>pycall\<close> is what the
  callee does with the argument: it raises (\<open>Inl\<close>, the result is \<open>NULL\<close> and the
  exception is pending) or returns an object.
\<close>

definition PyObject_CallFunctionObjArgs ::
  "(nat \<Rightarrow> 'd pydict \<Rightarrow> pyexc + 'd pyobj) \<Rightarrow> nat \<Rightarrow> 'd pydict \<Rightarrow> 'd outcome
     \<Rightarrow> 'd pyobj option \<times> 'd outcome" where
  "PyObject_CallFunctionObjArgs pycall callee arg out =
     (let out1 = out\<lparr>invocations := invocations out @ [(callee, arg)]\<rparr>
      in case pycall callee arg of
           Inl e \<Rightarrow> (None, out1\<lparr>errorPending := Some e\<rparr>)
         | Inr r \<Rightarrow> (Some r, out1))"

text \<open>
  \<open>eventCallback\<close>, the handler the platform calls for each event. \<open>Some (Returns out)\<close>:
  the handler returns \<open>returnEvent out\<close> to the platform. \<open>Some (Py_Exit code out)\<close>: the
  process exits inside the handler, which returns nothing. \<open>None\<close>: the process faults
  while the dictionary is built.
\<close>

definition eventCallback ::
  "(nat \<Rightarrow> 'd pydict \<Rightarrow> pyexc + 'd pyobj) \<Rightarrow> (64 word \<Rightarrow> 'd) \<Rightarrow> listener \<Rightarrow> 32 word
     \<Rightarrow> 'd cgevent \<Rightarrow> 'd run option" where
  "eventCallback pycall seconds st type ev =
     (case callbackObj st of
        None \<Rightarrow>
          Some (Returns
            \<lparr>returnEvent = Allow, invocations = [], printed = [], errorPending = None\<rparr>)
      | Some cb \<Rightarrow>
          (let out0 = \<lparr>returnEvent = returnEvent_decision st type ev, invocations = [],
                       printed = [], errorPending = None\<rparr>
           in (case eventDict seconds type ev of
                 None \<Rightarrow> None
               | Some d \<Rightarrow>
                   (case PyObject_CallFunctionObjArgs pycall cb d out0 of
                      (result, out1) \<Rightarrow>
                        (case result of
                           None \<Rightarrow> Some (PyErr_Print out1)
                         | Some r \<Rightarrow> Some (Returns out1))))))"

text \<open>The state a run has reached when it ends, either way.\<close>

fun reached :: "'d run \<Rightarrow> 'd outcome" where
  "reached (Returns out) = out"
| "reached (Py_Exit code out) = out"

section \<open>The design's reading of the record and of key codes\<close>

text \<open>
  The category tag the design assigns to each event type of the mask, and the record it
  expects for an event of that type: the common timestamp, the tag, then the fields of the
  category with the raw event's values.
\<close>

definition spec_categoryTag :: "32 word \<Rightarrow> string" where
  "spec_categoryTag type =
     (if type = kCGEventKeyDown then ''keydown''
      else if type = kCGEventKeyUp then ''keyup''
      else if type = kCGEventLeftMouseDown then ''leftMouseDown''
      else if type = kCGEventLeftMouseUp then ''leftMouseUp''
      else if type = kCGEventRightMouseDown then ''rightMouseDown''
      else if type = kCGEventRightMouseUp then ''rightMouseUp''
      else if type = kCGEventOtherMouseDown then ''otherMouseDown''
      else if type = kCGEventOtherMouseUp then ''otherMouseUp''
      else if type = kCGEventMouseMoved then ''mouseMoved''
      else if type = kCGEventLeftMouseDragged then ''leftMouseDragged''
      else if type = kCGEventRightMouseDragged then ''rightMouseDragged''
      else [])"

definition spec_CapturedEvent :: "(64 word \<Rightarrow> 'd) \<Rightarrow> 32 word \<Rightarrow> 'd cgevent \<Rightarrow> 'd pydict" where
  "spec_CapturedEvent seconds type ev =
     [(''timestamp'', PyFloat (seconds (evTimestamp ev))),
      (''eventType'', PyUnicode (spec_categoryTag type))] @
     (if isKeyEvent type then
        [(''keyCode'', PyLong (uint (eventKeyCode ev))),
         (''keyboardType'', PyLong (sint (evKeyboardType ev))),
         (''shift'', PyBool (evFlags ev AND kCGEventFlagMaskShift \<noteq> 0)),
         (''control'', PyBool (evFlags ev AND kCGEventFlagMaskControl \<noteq> 0)),
         (''alt'', PyBool (evFlags ev AND kCGEventFlagMaskAlternate \<noteq> 0)),
         (''command'', PyBool (evFlags ev AND kCGEventFlagMaskCommand \<noteq> 0)),
         (''capsLock'', PyBool (evFlags ev AND kCGEventFlagMaskAlphaShift \<noteq> 0))]
      else if isButtonEvent type then
        [(''button'', PyLong (sint (evButtonNumber ev))),
         (''clickState'', PyLong (sint (evClickState ev))),
         (''x'', PyFloat (evLocationX ev)),
         (''y'', PyFloat (evLocationY ev))]
      else
        [(''x'', PyFloat (evLocationX ev)),
         (''y'', PyFloat (evLocationY ev))])"

text \<open>The values of the platform's key-code type, an unsigned 16-bit integer.\<close>

definition spec_representableKeyCode :: "int \<Rightarrow> bool" where
  "spec_representableKeyCode v = (0 \<le> v \<and> v < 2 ^ 16)"

section \<open>Sample environments, states and events\<close>

text \<open>
  Concrete inputs for the closed statements below: an environment in which every object
  is callable, a callback that returns \<open>None\<close>, one that raises and one that calls
  \<open>sys.exit(3)\<close>, a timestamp conversion
  with doubles read as reals, a Running listener whose registry holds key code 5, and two
  raw events.
\<close>

definition every_callable :: "nat \<Rightarrow> bool" where
  "every_callable c = True"

definition returns_None :: "nat \<Rightarrow> real pydict \<Rightarrow> pyexc + real pyobj" where
  "returns_None c d = Inr PyNone"

definition raises_error :: "nat \<Rightarrow> real pydict \<Rightarrow> pyexc + real pyobj" where
  "raises_error c d = Inl (OtherException ''boom'')"

definition raises_SystemExit :: "nat \<Rightarrow> real pydict \<Rightarrow> pyexc + real pyobj" where
  "raises_SystemExit c d = Inl (SystemExit 3)"

definition real_seconds :: "64 word \<Rightarrow> real" where
  "real_seconds t = real (unat t) / 1000000000"

definition running_with_5 :: listener where
  "running_with_5 =
     \<lparr>callbackObj = Some 7, listenerRunning = 1, eatKeys = 5 # replicate 1023 0,
      numEatKeys = 1, mutexLive = True, spawned = 1, refcnt = (\<lambda>c. if c = 7 then 2 else 1)\<rparr>"

definition key_event :: "64 word \<Rightarrow> real cgevent" where
  "key_event code =
     \<lparr>evTimestamp = 2000000000, evKeycode = code, evKeyboardType = 44, evFlags = 0x20000,
      evButtonNumber = 0, evClickState = 0, evLocationX = 0, evLocationY = 0\<rparr>"

definition click_event :: "real cgevent" where
  "click_event =
     \<lparr>evTimestamp = 3000000000, evKeycode = 0, evKeyboardType = 0, evFlags = 0,
      evButtonNumber = 0, evClickState = 1, evLocationX = 100.5, evLocationY = 200.25\<rparr>"

text \<open>
  A run of the public operations from the freshly loaded module: key 5 is installed while
  the listener is Stopped, then the listener is started.
\<close>

definition stopped_with_5 :: listener where
  "stopped_with_5 = snd (listenerSetEatKeys (PyList [PyLong 5 :: real pyobj]) initial_listener)"

definition started_after_5 :: listener where
  "started_after_5 = snd (listenerStart every_callable True 0 7 stopped_with_5)"

section \<open>Auxiliary facts\<close>

lemmas event_type_defs =
  kCGEventLeftMouseDown_def kCGEventLeftMouseUp_def kCGEventRightMouseDown_def
  kCGEventRightMouseUp_def kCGEventMouseMoved_def kCGEventLeftMouseDragged_def
  kCGEventRightMouseDragged_def kCGEventKeyDown_def kCGEventKeyUp_def
  kCGEventOtherMouseDown_def kCGEventOtherMouseUp_def

lemmas flag_mask_defs =
  kCGEventFlagMaskAlphaShift_def kCGEventFlagMaskShift_def kCGEventFlagMaskControl_def
  kCGEventFlagMaskAlternate_def kCGEventFlagMaskCommand_def

subsection \<open>The event mask\<close>

lemma eventMask_value: "eventMask = 0x6000CFE"
  by (simp add: eventMask_def event_type_defs)

lemma eventMask_bits:
  "eventMask = push_bit 1 1 OR push_bit 2 1 OR push_bit 3 1 OR push_bit 4 1 OR push_bit 5 1
     OR push_bit 6 1 OR push_bit 7 1 OR push_bit 10 1 OR push_bit 11 1 OR push_bit 25 1
     OR push_bit 26 1"
  by (simp add: eventMask_value)

lemma bit_eventMask: "bit eventMask n \<longleftrightarrow> n \<in> {1, 2, 3, 4, 5, 6, 7, 10, 11, 25, 26}"
  unfolding eventMask_bits
  apply (simp only: bit_or_iff bit_push_bit_iff bit_1_iff)
  apply simp
  apply presburger
  done

lemma acceptedByMask_bit: "acceptedByMask m t = bit m (unat t)"
  by (simp add: acceptedByMask_def bit_iff_and_push_bit_not_eq_0)

lemma unat_eq_numeral_32:
  fixes t :: "32 word"
  shows "unat t = n \<Longrightarrow> t = of_nat n"
  by auto

lemma accepted_cases:
  assumes "acceptedByMask eventMask type"
  shows "isKeyEvent type \<or> isButtonEvent type \<or> isMotionEvent type"
proof -
  from assms have "unat type \<in> {1, 2, 3, 4, 5, 6, 7, 10, 11, 25, 26}"
    by (simp only: acceptedByMask_bit bit_eventMask)
  then have "type \<in> {1, 2, 3, 4, 5, 6, 7, 10, 11, 25, 26}"
    by (auto dest!: unat_eq_numeral_32)
  then show ?thesis
    by (auto simp: isKeyEvent_def isButtonEvent_def isMotionEvent_def event_type_defs)
qed

lemma accepted_iff:
  "acceptedByMask eventMask type \<longleftrightarrow> isKeyEvent type \<or> isButtonEvent type \<or> isMotionEvent type"
proof
  assume "acceptedByMask eventMask type"
  then show "isKeyEvent type \<or> isButtonEvent type \<or> isMotionEvent type"
    by (rule accepted_cases)
next
  assume "isKeyEvent type \<or> isButtonEvent type \<or> isMotionEvent type"
  then show "acceptedByMask eventMask type"
    by (auto simp: acceptedByMask_def eventMask_value isKeyEvent_def isButtonEvent_def
        isMotionEvent_def event_type_defs)
qed

subsection \<open>The scan\<close>

lemma scanEatKeys_iff:
  "scanEatKeys st k i \<noteq> 0 \<longleftrightarrow> (\<exists>j. i \<le> j \<and> j < numEatKeys st \<and> eatKeys st ! j = ucast k)"
proof (induction st k i rule: scanEatKeys.induct)
  case (1 st k i)
  show ?case
  proof (cases "i < numEatKeys st")
    case False
    then show ?thesis by (simp add: scanEatKeys.simps [of st k i])
  next
    case True
    show ?thesis
    proof (cases "eatKeys st ! i = ucast k")
      case True
      with \<open>i < numEatKeys st\<close> show ?thesis
        by (auto simp: scanEatKeys.simps [of st k i])
    next
      case False
      with True 1 have "scanEatKeys st k i \<noteq> 0 \<longleftrightarrow>
         (\<exists>j. i + 1 \<le> j \<and> j < numEatKeys st \<and> eatKeys st ! j = ucast k)"
        by (simp add: scanEatKeys.simps [of st k i])
      also have "\<dots> \<longleftrightarrow> (\<exists>j. i \<le> j \<and> j < numEatKeys st \<and> eatKeys st ! j = ucast k)"
        using False by (metis Suc_eq_plus1 Suc_leD Suc_leI le_neq_implies_less)
      finally show ?thesis .
    qed
  qed
qed

lemma scanEatKeys_range: "scanEatKeys st k i = 0 \<or> scanEatKeys st k i = 1"
proof (induction st k i rule: scanEatKeys.induct)
  case (1 st k i)
  then show ?case by (simp add: scanEatKeys.simps [of st k i])
qed

lemma shouldEatKey_iff:
  assumes "wf_listener st"
  shows "shouldEatKey st k \<noteq> 0 \<longleftrightarrow> ucast k \<in> set (registry st)"
proof -
  from assms have "numEatKeys st \<le> length (eatKeys st)"
    by (simp add: wf_listener_def)
  then have "ucast k \<in> set (registry st) \<longleftrightarrow>
      (\<exists>j<numEatKeys st. eatKeys st ! j = ucast k)"
    by (simp add: registry_def in_set_conv_nth cong: conj_cong)
  then show ?thesis
    by (auto simp: shouldEatKey_def scanEatKeys_iff)
qed

subsection \<open>The fill loop\<close>

lemma withinCLong_pending:
  "PyLong_Check item \<Longrightarrow> snd (PyLong_AsLong item) = None \<longleftrightarrow> withinCLong item"
  by (cases item) simp_all

lemma withinCLong_no_error:
  "PyLong_Check item \<Longrightarrow> withinCLong item \<Longrightarrow> snd (PyLong_AsLong item) = None"
  by (simp add: withinCLong_pending)

lemma fillEatKeys_invalid:
  "(\<exists>e. fst (fillEatKeys items pending st) = Inl e) \<longleftrightarrow> \<not> list_all PyLong_Check items"
  "\<not> list_all PyLong_Check items \<Longrightarrow> fst (fillEatKeys items pending st) = Inl InvalidEntry"
  by (induction items arbitrary: pending st) auto

lemma fillEatKeys_clean:
  "list_all PyLong_Check items \<Longrightarrow> list_all withinCLong items \<Longrightarrow>
   fst (fillEatKeys items pending st) = Inr pending"
  by (induction items arbitrary: pending st)
    (simp_all add: withinCLong_no_error raisePending_def)

lemma fillEatKeys_pending_stays:
  "list_all PyLong_Check items \<Longrightarrow> \<exists>e'. fst (fillEatKeys items (Some e) st) = Inr (Some e')"
proof (induction items arbitrary: e st)
  case Nil
  then show ?case by simp
next
  case (Cons item rest)
  then show ?case
    by (cases "snd (PyLong_AsLong item)") (simp_all add: raisePending_def)
qed

lemma fillEatKeys_overflow:
  "list_all PyLong_Check items \<Longrightarrow> \<not> list_all withinCLong items \<Longrightarrow>
   \<exists>e. fst (fillEatKeys items pending st) = Inr (Some e)"
proof (induction items arbitrary: pending st)
  case Nil
  then show ?case by simp
next
  case (Cons item rest)
  show ?case
  proof (cases "withinCLong item")
    case True
    with Cons show ?thesis
      by (simp add: withinCLong_no_error raisePending_def)
  next
    case False
    with Cons.prems obtain e where "snd (PyLong_AsLong item) = Some e"
      using withinCLong_pending [of item] by (cases "snd (PyLong_AsLong item)") simp_all
    with Cons.prems show ?thesis
      using fillEatKeys_pending_stays [of rest e]
      by (simp add: raisePending_def)
  qed
qed

lemma fillEatKeys_other_fields:
  "callbackObj (snd (fillEatKeys items pending st)) = callbackObj st \<and>
   listenerRunning (snd (fillEatKeys items pending st)) = listenerRunning st \<and>
   mutexLive (snd (fillEatKeys items pending st)) = mutexLive st \<and>
   spawned (snd (fillEatKeys items pending st)) = spawned st \<and>
   refcnt (snd (fillEatKeys items pending st)) = refcnt st \<and>
   length (eatKeys (snd (fillEatKeys items pending st))) = length (eatKeys st) \<and>
   numEatKeys (snd (fillEatKeys items pending st)) =
     numEatKeys st + length (takeWhile PyLong_Check items)"
  by (induction items arbitrary: pending st) auto

lemma fillEatKeys_registry:
  "numEatKeys st + length items \<le> length (eatKeys st) \<Longrightarrow>
   registry (snd (fillEatKeys items pending st)) =
     registry st @ map asCInt (takeWhile PyLong_Check items)"
proof (induction items arbitrary: pending st)
  case Nil
  then show ?case by simp
next
  case (Cons item rest)
  show ?case
  proof (cases "PyLong_Check item")
    case False
    then show ?thesis by simp
  next
    case True
    let ?st1 = "st\<lparr>eatKeys := (eatKeys st)[numEatKeys st := asCInt item],
                    numEatKeys := numEatKeys st + 1\<rparr>"
    from Cons.prems have lt: "numEatKeys st < length (eatKeys st)" by simp
    then have r1: "registry ?st1 = registry st @ [asCInt item]"
      by (simp add: registry_def take_Suc_conv_app_nth)
    from Cons.prems have "numEatKeys ?st1 + length rest \<le> length (eatKeys ?st1)" by simp
    from Cons.IH [OF this] r1 True show ?thesis by simp
  qed
qed

lemma setEatKeys_fst:
  "length items \<le> MAX_EAT_KEYS \<Longrightarrow>
   fst (listenerSetEatKeys (PyList items) st) =
     (case fst (fillEatKeys items None (st\<lparr>numEatKeys := 0\<rparr>)) of
        Inl e \<Rightarrow> Inl e
      | Inr pending \<Rightarrow> Py_RETURN_NONE pending)"
  by (simp add: listenerSetEatKeys_def split: prod.splits sum.splits)

lemma setEatKeys_snd:
  "length items \<le> MAX_EAT_KEYS \<Longrightarrow>
   snd (listenerSetEatKeys (PyList items) st) =
     snd (fillEatKeys items None (st\<lparr>numEatKeys := 0\<rparr>))"
  by (simp add: listenerSetEatKeys_def split: prod.splits sum.splits)

lemma registry_reset [simp]: "registry (st\<lparr>numEatKeys := 0\<rparr>) = []"
  by (simp add: registry_def)

lemma setEatKeys_registry:
  assumes "wf_listener st" and "length items \<le> MAX_EAT_KEYS"
  shows "registry (snd (listenerSetEatKeys (PyList items) st)) =
           map asCInt (takeWhile PyLong_Check items)"
  using assms fillEatKeys_registry [of "st\<lparr>numEatKeys := 0\<rparr>" items None]
  by (simp add: setEatKeys_snd wf_listener_def)

lemma setEatKeys_wf:
  assumes "wf_listener st"
  shows "wf_listener (snd (listenerSetEatKeys keyList st))"
proof (cases keyList)
  case (PyList items)
  show ?thesis
  proof (cases "length items > MAX_EAT_KEYS")
    case True
    with PyList assms show ?thesis by (simp add: listenerSetEatKeys_def)
  next
    case False
    have "length (takeWhile PyLong_Check items) \<le> length items"
      by (rule length_takeWhile_le)
    with False PyList assms show ?thesis
      using fillEatKeys_other_fields [of items None "st\<lparr>numEatKeys := 0\<rparr>"]
      by (simp add: setEatKeys_snd wf_listener_def)
  qed
qed (use assms in \<open>simp_all add: listenerSetEatKeys_def\<close>)

lemma setEatKeys_TooMany_unchanged:
  "length items > MAX_EAT_KEYS \<Longrightarrow> listenerSetEatKeys (PyList items) st = (Inl TooMany, st)"
  by (simp add: listenerSetEatKeys_def)

lemma listenerStart_wf:
  "wf_listener st \<Longrightarrow> wf_listener (snd (listenerStart callable trusted err cb st))"
  by (auto simp: listenerStart_def wf_listener_def Let_def Py_INCREF_def Py_DECREF_def
      Py_XDECREF_def pthread_create_def split: option.splits)

lemma listenerStop_wf: "wf_listener st \<Longrightarrow> wf_listener (listenerStop st)"
  by (auto simp: listenerStop_def wf_listener_def Py_DECREF_def Py_XDECREF_def
      split: option.splits)

lemma initial_listener_wf: "wf_listener initial_listener"
  by (simp add: wf_listener_def initial_listener_def MAX_EAT_KEYS_def)

subsection \<open>The dictionary\<close>

lemma buttonTypeStr_tag: "isButtonEvent type \<Longrightarrow> buttonTypeStr type = Some (spec_categoryTag type)"
  by (auto simp: isButtonEvent_def buttonTypeStr_def spec_categoryTag_def event_type_defs)

lemma motionTypeStr_tag: "isMotionEvent type \<Longrightarrow> motionTypeStr type = Some (spec_categoryTag type)"
  by (auto simp: isMotionEvent_def motionTypeStr_def spec_categoryTag_def event_type_defs)

lemma key_tag:
  "isKeyEvent type \<Longrightarrow> (if type = kCGEventKeyDown then ''keydown'' else ''keyup'') = spec_categoryTag type"
  by (auto simp: isKeyEvent_def spec_categoryTag_def event_type_defs)

lemma categories_disjoint:
  "isKeyEvent type \<Longrightarrow> \<not> isButtonEvent type \<and> \<not> isMotionEvent type"
  "isButtonEvent type \<Longrightarrow> \<not> isMotionEvent type"
  by (auto simp: isKeyEvent_def isButtonEvent_def isMotionEvent_def event_type_defs)

lemma ucast_keyCode_long: "sint (ucast (k :: 16 word) :: 64 word) = uint k"
proof -
  have "uint k < 2 ^ 16"
    using uint_bounded [of k] by simp
  then have "uint k < 2 ^ 63"
    by simp
  moreover have "- (2 ^ 63) \<le> (0 :: int)"
    by simp
  then have "- (2 ^ 63) \<le> uint k"
    by (rule order_trans) simp
  ultimately have "- (2 ^ 63) \<le> uint k" and "uint k < 2 ^ 63"
    by simp_all
  then have "signed_take_bit 63 (uint k) = uint k"
    by (rule signed_take_bit_int_eq_self)
  then show ?thesis
    by (simp add: signed_ucast_eq)
qed

lemma eventDict_key:
  "isKeyEvent type \<Longrightarrow> eventDict seconds type ev = Some (spec_CapturedEvent seconds type ev)"
  by (simp add: eventDict_def spec_CapturedEvent_def PyUnicode_FromString_def key_tag
      PyDict_SetItemString_def PyLong_FromLong_def PyBool_FromLong_def Let_def ucast_keyCode_long)

lemma eventDict_button:
  assumes "isButtonEvent type"
  shows "eventDict seconds type ev = Some (spec_CapturedEvent seconds type ev)"
proof -
  from assms have "\<not> isKeyEvent type"
    using categories_disjoint(1) by blast
  with assms show ?thesis
    by (simp add: eventDict_def spec_CapturedEvent_def PyUnicode_FromString_def
        buttonTypeStr_tag PyDict_SetItemString_def PyLong_FromLong_def Let_def)
qed

lemma eventDict_motion:
  assumes "isMotionEvent type"
  shows "eventDict seconds type ev = Some (spec_CapturedEvent seconds type ev)"
proof -
  from assms have "\<not> isKeyEvent type" and "\<not> isButtonEvent type"
    using categories_disjoint by blast+
  with assms show ?thesis
    by (simp add: eventDict_def spec_CapturedEvent_def PyUnicode_FromString_def
        motionTypeStr_tag PyDict_SetItemString_def Let_def)
qed

lemma eventDict_other:
  "\<not> isKeyEvent type \<Longrightarrow> \<not> isButtonEvent type \<Longrightarrow> \<not> isMotionEvent type \<Longrightarrow>
   eventDict seconds type ev = Some [(''timestamp'', PyFloat (seconds (evTimestamp ev)))]"
  by (simp add: eventDict_def PyDict_SetItemString_def)

lemma eventDict_total: "\<exists>d. eventDict seconds type ev = Some d"
proof -
  consider "isKeyEvent type" | "isButtonEvent type" | "isMotionEvent type"
    | "\<not> isKeyEvent type" and "\<not> isButtonEvent type" and "\<not> isMotionEvent type"
    by blast
  then show ?thesis
    by cases (simp_all add: eventDict_key eventDict_button eventDict_motion eventDict_other)
qed

subsection \<open>Results of the public operations\<close>

lemma setEatKeys_result:
  "fst (listenerSetEatKeys (PyList items) st) =
     (if length items > MAX_EAT_KEYS then Inl TooMany
      else if \<not> list_all PyLong_Check items then Inl InvalidEntry
      else if list_all withinCLong items then Inr ()
      else Inl ResultWithErrorSet)"
proof -
  let ?st0 = "st\<lparr>numEatKeys := 0\<rparr>"
  consider "length items > MAX_EAT_KEYS"
    | "\<not> length items > MAX_EAT_KEYS" and "\<not> list_all PyLong_Check items"
    | "\<not> length items > MAX_EAT_KEYS" and "list_all PyLong_Check items"
      and "list_all withinCLong items"
    | "\<not> length items > MAX_EAT_KEYS" and "list_all PyLong_Check items"
      and "\<not> list_all withinCLong items"
    by blast
  then show ?thesis
  proof cases
    case 1
    then show ?thesis by (simp add: listenerSetEatKeys_def)
  next
    case 2
    from 2(2) have "fst (fillEatKeys items None ?st0) = Inl InvalidEntry"
      by (rule fillEatKeys_invalid(2))
    with 2 show ?thesis
      by (simp add: setEatKeys_fst)
  next
    case 3
    from 3(2,3) have "fst (fillEatKeys items None ?st0) = Inr None"
      by (rule fillEatKeys_clean)
    with 3 show ?thesis
      by (simp add: setEatKeys_fst Py_RETURN_NONE_def)
  next
    case 4
    from 4(2,3) obtain e where "fst (fillEatKeys items None ?st0) = Inr (Some e)"
      using fillEatKeys_overflow by blast
    with 4 show ?thesis
      by (simp add: setEatKeys_fst Py_RETURN_NONE_def)
  qed
qed

lemma setEatKeys_other_fields:
  "callbackObj (snd (listenerSetEatKeys keyList st)) = callbackObj st \<and>
   listenerRunning (snd (listenerSetEatKeys keyList st)) = listenerRunning st \<and>
   mutexLive (snd (listenerSetEatKeys keyList st)) = mutexLive st \<and>
   spawned (snd (listenerSetEatKeys keyList st)) = spawned st \<and>
   refcnt (snd (listenerSetEatKeys keyList st)) = refcnt st"
proof (cases keyList)
  case (PyList items)
  show ?thesis
  proof (cases "length items > MAX_EAT_KEYS")
    case True
    with PyList show ?thesis by (simp add: listenerSetEatKeys_def)
  next
    case False
    with PyList show ?thesis
      using fillEatKeys_other_fields [of items None "st\<lparr>numEatKeys := 0\<rparr>"]
      by (simp add: setEatKeys_snd)
  qed
qed (simp_all add: listenerSetEatKeys_def)

lemma takeWhile_all: "list_all P xs \<Longrightarrow> takeWhile P xs = xs"
  by (induction xs) simp_all

lemma listenerStart_success:
  assumes "listenerStart callable trusted err callback st = (Inr (), st')"
  shows "registry st' = [] \<and> callbackObj st' = Some callback \<and> listenerRunning st' = 1 \<and>
         listenerRunning st = 0 \<and> spawned st' = spawned st + 1"
  using assms
  by (auto simp add: listenerStart_def Let_def Py_INCREF_def Py_DECREF_def Py_XDECREF_def
      pthread_create_def registry_def split: if_splits option.splits)

lemma empty_registry_allows:
  assumes "wf_listener st" and "registry st = []"
  shows "returnEvent_decision st type ev = Allow"
  using assms by (simp add: returnEvent_decision_def shouldEatKey_iff)

lemma eventCallback_reached:
  "eventCallback pycall seconds st type ev = Some r \<Longrightarrow>
   returnEvent (reached r) =
     (if callbackObj st = None then Allow else returnEvent_decision st type ev)"
  by (auto simp add: eventCallback_def PyObject_CallFunctionObjArgs_def PyErr_Print_def Let_def
      split: option.splits sum.splits)

lemma eventCallback_registered:
  assumes "callbackObj st = Some cb" and "eventDict seconds type ev = Some d"
  shows "eventCallback pycall seconds st type ev =
    Some (case pycall cb d of
            Inr r \<Rightarrow>
              Returns \<lparr>returnEvent = returnEvent_decision st type ev, invocations = [(cb, d)],
                       printed = [], errorPending = None\<rparr>
          | Inl e \<Rightarrow>
              (case exitCode e of
                 None \<Rightarrow>
                   Returns \<lparr>returnEvent = returnEvent_decision st type ev,
                            invocations = [(cb, d)], printed = [e], errorPending = None\<rparr>
               | Some code \<Rightarrow>
                   Py_Exit code \<lparr>returnEvent = returnEvent_decision st type ev,
                                 invocations = [(cb, d)], printed = [],
                                 errorPending = Some e\<rparr>))"
  using assms
  by (simp add: eventCallback_def PyObject_CallFunctionObjArgs_def PyErr_Print_def Let_def
      split: sum.splits option.splits)

lemma exitCode_None_iff: "exitCode e = None \<longleftrightarrow> (\<forall>code. e \<noteq> SystemExit code)"
  by (cases e) simp_all

lemma asCInt_in_range:
  "- (2 ^ 63) \<le> v \<Longrightarrow> v < 2 ^ 63 \<Longrightarrow> asCInt (PyLong v) = word_of_int v"
proof -
  have "(ucast (word_of_int v :: 64 word) :: 32 word) = word_of_int v"
    by (simp add: ucast_eq word_of_int_eq_iff uint_word_of_int_eq)
  then show "- (2 ^ 63) \<le> v \<Longrightarrow> v < 2 ^ 63 \<Longrightarrow> asCInt (PyLong v) = word_of_int v"
    by (simp add: asCInt_def)
qed

subsection \<open>The sample inputs, evaluated\<close>

lemma running_with_5_decision:
  "returnEvent_decision running_with_5 kCGEventKeyDown (key_event 5) = Suppress"
proof -
  have "wf_listener running_with_5"
    by (simp add: wf_listener_def running_with_5_def MAX_EAT_KEYS_def)
  moreover have "registry running_with_5 = [5]"
    by (simp add: registry_def running_with_5_def)
  moreover have "ucast (eventKeyCode (key_event 5)) = (5 :: 32 word)"
    by (simp add: eventKeyCode_def key_event_def)
  ultimately show ?thesis
    by (simp add: returnEvent_decision_def isKeyEvent_def shouldEatKey_iff)
qed

lemma key_event_5_dict:
  "spec_CapturedEvent real_seconds kCGEventKeyDown (key_event 5) =
     [(''timestamp'', PyFloat 2), (''eventType'', PyUnicode ''keydown''),
      (''keyCode'', PyLong 5), (''keyboardType'', PyLong 44), (''shift'', PyBool True),
      (''control'', PyBool False), (''alt'', PyBool False), (''command'', PyBool False),
      (''capsLock'', PyBool False)]"
  by (simp add: spec_CapturedEvent_def spec_categoryTag_def isKeyEvent_def key_event_def
      real_seconds_def eventKeyCode_def flag_mask_defs)

lemma click_event_dict:
  "spec_CapturedEvent real_seconds kCGEventLeftMouseDown click_event =
     [(''timestamp'', PyFloat 3), (''eventType'', PyUnicode ''leftMouseDown''),
      (''button'', PyLong 0), (''clickState'', PyLong 1), (''x'', PyFloat 100.5),
      (''y'', PyFloat 200.25)]"
  by (simp add: spec_CapturedEvent_def spec_categoryTag_def isKeyEvent_def isButtonEvent_def
      click_event_def real_seconds_def event_type_defs)

lemma stopped_with_5_facts:
  "wf_listener stopped_with_5" "registry stopped_with_5 = [5]"
  "listenerRunning stopped_with_5 = 0" "callbackObj stopped_with_5 = None"
proof -
  show "wf_listener stopped_with_5"
    unfolding stopped_with_5_def by (rule setEatKeys_wf) (rule initial_listener_wf)
  show "registry stopped_with_5 = [5]"
    unfolding stopped_with_5_def
    by (simp add: setEatKeys_registry initial_listener_wf MAX_EAT_KEYS_def asCInt_def)
  show "listenerRunning stopped_with_5 = 0" "callbackObj stopped_with_5 = None"
    unfolding stopped_with_5_def
    by (simp_all add: setEatKeys_other_fields initial_listener_def)
qed

lemma started_after_5_facts:
  "fst (listenerStart every_callable True 0 7 stopped_with_5) = Inr ()"
  "wf_listener started_after_5" "registry started_after_5 = []"
  "callbackObj started_after_5 = Some 7" "listenerRunning started_after_5 = 1"
proof -
  show ok: "fst (listenerStart every_callable True 0 7 stopped_with_5) = Inr ()"
    by (simp add: listenerStart_def every_callable_def stopped_with_5_facts Let_def)
  then have "listenerStart every_callable True 0 7 stopped_with_5 = (Inr (), started_after_5)"
    by (simp add: started_after_5_def prod_eq_iff)
  from listenerStart_success [OF this]
  show "registry started_after_5 = []" "callbackObj started_after_5 = Some 7"
    "listenerRunning started_after_5 = 1"
    by simp_all
  show "wf_listener started_after_5"
    unfolding started_after_5_def by (rule listenerStart_wf) (rule stopped_with_5_facts)
qed

section \<open>The claims\<close>

text \<open>
  C1. While a callback is registered, the handler's verdict for a key-down or key-up event
  is suppress exactly when the event's key code, widened to a C int as the scan compares
  it, is one of the keys of the registry; a key event whose code is not registered is
  allowed. The handler returns that verdict to the platform whenever the callback does not
  raise SystemExit on the event's record. The registry is the used part of the array,
  which stays within its declared size.
\<close>

theorem C1_suppress_iff_registered:
  assumes "callbackObj st = Some cb" and "isKeyEvent type" and "wf_listener st"
  shows "\<exists>r. eventCallback pycall seconds st type ev = Some r \<and>
           (returnEvent (reached r) = Suppress \<longleftrightarrow>
              ucast (eventKeyCode ev) \<in> set (registry st)) \<and>
           (ucast (eventKeyCode ev) \<notin> set (registry st) \<longrightarrow> returnEvent (reached r) = Allow) \<and>
           ((\<forall>d code. eventDict seconds type ev = Some d \<longrightarrow>
               pycall cb d \<noteq> Inl (SystemExit code)) \<longrightarrow>
            (\<exists>out. r = Returns out))"
proof -
  obtain d where d: "eventDict seconds type ev = Some d"
    using eventDict_total by blast
  have v: "returnEvent_decision st type ev =
      (if ucast (eventKeyCode ev) \<in> set (registry st) then Suppress else Allow)"
    using assms(2,3) by (simp add: returnEvent_decision_def shouldEatKey_iff)
  note run = eventCallback_registered [OF assms(1) d, of pycall]
  show ?thesis
  proof (cases "pycall cb d")
    case (Inr obj)
    with run v show ?thesis by simp
  next
    case (Inl e)
    show ?thesis
    proof (cases "exitCode e")
      case None
      with Inl run v show ?thesis by simp
    next
      case (Some code)
      then have "e = SystemExit code" by (cases e) simp_all
      with Inl Some run v d show ?thesis by auto
    qed
  qed
qed

text \<open>
  C1 at a Running listener whose registry is \<open>[5]\<close>, with a callback that returns: key-down
  with code 5 is suppressed, key-up with code 6 is allowed.
\<close>

theorem C1_witness:
  "callbackObj running_with_5 = Some 7 \<and> isKeyEvent kCGEventKeyDown \<and> isKeyEvent kCGEventKeyUp \<and>
   wf_listener running_with_5 \<and>
   (\<exists>out. eventCallback returns_None real_seconds running_with_5 kCGEventKeyDown (key_event 5)
            = Some (Returns out) \<and> returnEvent out = Suppress) \<and>
   (\<exists>out. eventCallback returns_None real_seconds running_with_5 kCGEventKeyUp (key_event 6)
            = Some (Returns out) \<and> returnEvent out = Allow)"
proof -
  have h1: "callbackObj running_with_5 = Some 7"
    by (simp add: running_with_5_def)
  have h2: "isKeyEvent kCGEventKeyDown" "isKeyEvent kCGEventKeyUp"
    by (simp_all add: isKeyEvent_def)
  have h3: "wf_listener running_with_5"
    by (simp add: wf_listener_def running_with_5_def MAX_EAT_KEYS_def)
  have h4: "\<forall>d code. eventDict real_seconds type ev = Some d \<longrightarrow>
      returns_None 7 d \<noteq> Inl (SystemExit code)" for type ev
    by (simp add: returns_None_def)
  have r: "registry running_with_5 = [5]"
    by (simp add: registry_def running_with_5_def)
  have k5: "ucast (eventKeyCode (key_event 5)) = (5 :: 32 word)"
    and k6: "ucast (eventKeyCode (key_event 6)) = (6 :: 32 word)"
    by (simp_all add: eventKeyCode_def key_event_def)
  from C1_suppress_iff_registered [OF h1 h2(1) h3, of returns_None real_seconds "key_event 5"]
    h4 [of kCGEventKeyDown "key_event 5"]
  have a: "\<exists>out. eventCallback returns_None real_seconds running_with_5 kCGEventKeyDown
      (key_event 5) = Some (Returns out) \<and> returnEvent out = Suppress"
    by (auto simp add: r k5)
  from C1_suppress_iff_registered [OF h1 h2(2) h3, of returns_None real_seconds "key_event 6"]
    h4 [of kCGEventKeyUp "key_event 6"]
  have b: "\<exists>out. eventCallback returns_None real_seconds running_with_5 kCGEventKeyUp
      (key_event 6) = Some (Returns out) \<and> returnEvent out = Allow"
    by (auto simp add: r k6)
  from h1 h2 h3 a b show ?thesis by (intro conjI)
qed

text \<open>
  C2. A call rejected with TooMany leaves the globals as they were
  (\<open>setEatKeys_TooMany_unchanged\<close>). A call rejected with InvalidEntry does not: the
  count is reset and the integers before the offending element are stored before the
  error is returned. Here the registry holds \<open>[5]\<close>, the list \<open>[7, 'a']\<close> is rejected, and
  the registry is \<open>[7]\<close> afterwards.
\<close>

theorem C2_invalid_entry_partial_update:
  "registry running_with_5 = [5] \<and>
   fst (listenerSetEatKeys (PyList [PyLong 7, PyUnicode ''a'' :: real pyobj]) running_with_5)
     = Inl InvalidEntry \<and>
   registry (snd (listenerSetEatKeys (PyList [PyLong 7, PyUnicode ''a'' :: real pyobj])
     running_with_5)) = [7]"
proof -
  have "wf_listener running_with_5"
    by (simp add: wf_listener_def running_with_5_def MAX_EAT_KEYS_def)
  moreover have "registry running_with_5 = [5]"
    by (simp add: registry_def running_with_5_def)
  moreover have "asCInt (PyLong 7 :: real pyobj) = 7"
    by (simp add: asCInt_def)
  ultimately show ?thesis
    by (simp add: setEatKeys_result setEatKeys_registry MAX_EAT_KEYS_def)
qed

text \<open>
  C3. With a callback registered, every event whose type the mask accepts leads to exactly
  one invocation of that callback, whatever the verdict, and the argument is the record
  the design describes for the event's category: the tag of the type and the raw event's
  values (the key code read at the platform's key-code type). Unless the callback raises
  SystemExit on that record, the handler then returns the verdict decided before
  dispatch.
\<close>

theorem C3_one_invocation_populated:
  assumes "callbackObj st = Some cb" and "acceptedByMask eventMask type"
  shows "\<exists>r. eventCallback pycall seconds st type ev = Some r \<and>
           invocations (reached r) = [(cb, spec_CapturedEvent seconds type ev)] \<and>
           ((\<forall>code. pycall cb (spec_CapturedEvent seconds type ev) \<noteq> Inl (SystemExit code)) \<longrightarrow>
            (\<exists>out. r = Returns out \<and> returnEvent out = returnEvent_decision st type ev))"
proof -
  let ?d = "spec_CapturedEvent seconds type ev"
  from assms(2) have "isKeyEvent type \<or> isButtonEvent type \<or> isMotionEvent type"
    by (rule accepted_cases)
  then have d: "eventDict seconds type ev = Some ?d"
    using eventDict_key eventDict_button eventDict_motion by blast
  note run = eventCallback_registered [OF assms(1) d, of pycall]
  show ?thesis
  proof (cases "pycall cb ?d")
    case (Inr obj)
    with run show ?thesis by simp
  next
    case (Inl e)
    show ?thesis
    proof (cases "exitCode e")
      case None
      with Inl run show ?thesis by simp
    next
      case (Some code)
      then have "e = SystemExit code" by (cases e) simp_all
      with Inl Some run show ?thesis by auto
    qed
  qed
qed

text \<open>
  C3 at the design's example, a left-mouse-down at (100.5, 200.25) with button 0 and click
  state 1, which is allowed, and at a key-down of the registered key 5, which is
  suppressed: one invocation each.
\<close>

theorem C3_witness:
  "callbackObj running_with_5 = Some 7 \<and>
   acceptedByMask eventMask kCGEventLeftMouseDown \<and> acceptedByMask eventMask kCGEventKeyDown \<and>
   (\<exists>out. eventCallback returns_None real_seconds running_with_5 kCGEventLeftMouseDown click_event
            = Some (Returns out) \<and>
          returnEvent out = Allow \<and>
          invocations out =
            [(7, [(''timestamp'', PyFloat 3), (''eventType'', PyUnicode ''leftMouseDown''),
                  (''button'', PyLong 0), (''clickState'', PyLong 1), (''x'', PyFloat 100.5),
                  (''y'', PyFloat 200.25)])]) \<and>
   (\<exists>out. eventCallback returns_None real_seconds running_with_5 kCGEventKeyDown (key_event 5)
            = Some (Returns out) \<and>
          returnEvent out = Suppress \<and>
          invocations out =
            [(7, [(''timestamp'', PyFloat 2), (''eventType'', PyUnicode ''keydown''),
                  (''keyCode'', PyLong 5), (''keyboardType'', PyLong 44),
                  (''shift'', PyBool True), (''control'', PyBool False),
                  (''alt'', PyBool False), (''command'', PyBool False),
                  (''capsLock'', PyBool False)])])"
proof -
  have h1: "callbackObj running_with_5 = Some 7"
    by (simp add: running_with_5_def)
  have h2: "acceptedByMask eventMask kCGEventLeftMouseDown"
    and h3: "acceptedByMask eventMask kCGEventKeyDown"
    by (simp_all add: accepted_iff isKeyEvent_def isButtonEvent_def)
  have h4: "\<forall>code. returns_None 7 d \<noteq> Inl (SystemExit code)" for d
    by (simp add: returns_None_def)
  have v: "returnEvent_decision running_with_5 kCGEventLeftMouseDown click_event = Allow"
    by (simp add: returnEvent_decision_def isKeyEvent_def event_type_defs)
  from C3_one_invocation_populated [OF h1 h2, of returns_None real_seconds click_event] h4
  have a: "\<exists>out. eventCallback returns_None real_seconds running_with_5 kCGEventLeftMouseDown
      click_event = Some (Returns out) \<and> returnEvent out = Allow \<and>
      invocations out = [(7, spec_CapturedEvent real_seconds kCGEventLeftMouseDown click_event)]"
    by (auto simp add: v)
  from C3_one_invocation_populated [OF h1 h3, of returns_None real_seconds "key_event 5"] h4
  have b: "\<exists>out. eventCallback returns_None real_seconds running_with_5 kCGEventKeyDown
      (key_event 5) = Some (Returns out) \<and> returnEvent out = Suppress \<and>
      invocations out = [(7, spec_CapturedEvent real_seconds kCGEventKeyDown (key_event 5))]"
    by (auto simp add: running_with_5_decision)
  from h1 h2 h3 a b show ?thesis
    by (simp add: key_event_5_dict click_event_dict)
qed

text \<open>
  C4, as stated, fails. The callback raises SystemExit during dispatch of a key-down of
  the registered key 5: \<open>PyErr_Print\<close> ends the process with the exit code, nothing is
  printed, and the handler returns no verdict.
\<close>

theorem C4_counterexample:
  "raises_SystemExit 7 (spec_CapturedEvent real_seconds kCGEventKeyDown (key_event 5))
     = Inl (SystemExit 3) \<and>
   eventCallback raises_SystemExit real_seconds running_with_5 kCGEventKeyDown (key_event 5)
     = Some (Py_Exit 3
         \<lparr>returnEvent = Suppress,
          invocations = [(7, spec_CapturedEvent real_seconds kCGEventKeyDown (key_event 5))],
          printed = [], errorPending = Some (SystemExit 3)\<rparr>)"
proof -
  have "callbackObj running_with_5 = Some 7"
    by (simp add: running_with_5_def)
  moreover have "eventDict real_seconds kCGEventKeyDown (key_event 5) =
      Some (spec_CapturedEvent real_seconds kCGEventKeyDown (key_event 5))"
    by (simp add: eventDict_key isKeyEvent_def)
  ultimately show ?thesis
    using eventCallback_registered [of running_with_5 7 real_seconds kCGEventKeyDown
        "key_event 5" _ raises_SystemExit]
    by (simp add: raises_SystemExit_def running_with_5_decision)
qed

text \<open>
  C4, amended. When the callback raises an exception other than SystemExit during
  dispatch, the handler still returns: the exception is printed, no error is pending at
  return, and the verdict is the one decided before dispatch, the same as under any other
  behaviour of the callback with which the handler returns.
\<close>

theorem C4_callback_fault_contained:
  assumes "callbackObj st = Some cb"
    and "eventDict seconds type ev = Some d"
    and "pycall cb d = Inl e"
    and "exitCode e = None"
  shows "\<exists>out. eventCallback pycall seconds st type ev = Some (Returns out) \<and>
           printed out = [e] \<and> errorPending out = None \<and>
           returnEvent out = returnEvent_decision st type ev \<and>
           (\<forall>pycall' out'. eventCallback pycall' seconds st type ev = Some (Returns out') \<longrightarrow>
              returnEvent out' = returnEvent out)"
proof -
  have any: "returnEvent out' = returnEvent_decision st type ev"
    if "eventCallback pycall' seconds st type ev = Some (Returns out')" for pycall' out'
    using eventCallback_reached [OF that] assms(1) by simp
  from assms have "eventCallback pycall seconds st type ev =
      Some (Returns \<lparr>returnEvent = returnEvent_decision st type ev, invocations = [(cb, d)],
            printed = [e], errorPending = None\<rparr>)"
    by (simp add: eventCallback_registered)
  with any show ?thesis by simp
qed

text \<open>
  C4, amended, at a key-down of the registered key 5 with a callback that raises an
  ordinary exception: printed, cleared, and still suppressed.
\<close>

theorem C4_witness:
  "callbackObj running_with_5 = Some 7 \<and>
   eventDict real_seconds kCGEventKeyDown (key_event 5) =
     Some (spec_CapturedEvent real_seconds kCGEventKeyDown (key_event 5)) \<and>
   raises_error 7 (spec_CapturedEvent real_seconds kCGEventKeyDown (key_event 5)) =
     Inl (OtherException ''boom'') \<and>
   exitCode (OtherException ''boom'') = None \<and>
   (\<exists>out. eventCallback raises_error real_seconds running_with_5 kCGEventKeyDown (key_event 5)
            = Some (Returns out) \<and>
          printed out = [OtherException ''boom''] \<and> errorPending out = None \<and>
          returnEvent out = Suppress)"
proof -
  have h1: "callbackObj running_with_5 = Some 7"
    by (simp add: running_with_5_def)
  have h2: "eventDict real_seconds kCGEventKeyDown (key_event 5) =
      Some (spec_CapturedEvent real_seconds kCGEventKeyDown (key_event 5))"
    by (simp add: eventDict_key isKeyEvent_def)
  have h3: "raises_error 7 (spec_CapturedEvent real_seconds kCGEventKeyDown (key_event 5)) =
      Inl (OtherException ''boom'')"
    by (simp add: raises_error_def)
  have h4: "exitCode (OtherException ''boom'') = None"
    by simp
  show ?thesis
    using C4_callback_fault_contained [where pycall = raises_error, OF h1 h2 h3 h4] h1 h2 h3 h4
    by (auto simp add: running_with_5_decision)
qed

text \<open>
  C5, as stated, fails. Key 5 is installed while the listener is Stopped, and the call
  succeeds; the listener is then started, and start succeeds; the registry is now empty
  and a key-down event with code 5 is allowed, not suppressed.
\<close>

theorem C5_counterexample:
  "fst (listenerSetEatKeys (PyList [PyLong 5 :: real pyobj]) initial_listener) = Inr () \<and>
   registry stopped_with_5 = [5] \<and> \<not> listenerIsRunning stopped_with_5 \<and>
   fst (listenerStart every_callable True 0 7 stopped_with_5) = Inr () \<and>
   listenerIsRunning started_after_5 \<and>
   registry started_after_5 = [] \<and>
   eventCallback returns_None real_seconds started_after_5 kCGEventKeyDown (key_event 5)
     = Some (Returns
         \<lparr>returnEvent = Allow,
          invocations = [(7, spec_CapturedEvent real_seconds kCGEventKeyDown (key_event 5))],
          printed = [], errorPending = None\<rparr>)"
proof -
  have "eventDict real_seconds kCGEventKeyDown (key_event 5) =
      Some (spec_CapturedEvent real_seconds kCGEventKeyDown (key_event 5))"
    by (simp add: eventDict_key isKeyEvent_def)
  from eventCallback_registered [OF started_after_5_facts(4) this, of returns_None]
  have "eventCallback returns_None real_seconds started_after_5 kCGEventKeyDown (key_event 5)
     = Some (Returns
         \<lparr>returnEvent = Allow,
          invocations = [(7, spec_CapturedEvent real_seconds kCGEventKeyDown (key_event 5))],
          printed = [], errorPending = None\<rparr>)"
    by (simp add: returns_None_def started_after_5_facts empty_registry_allows)
  then show ?thesis
    by (simp add: setEatKeys_result MAX_EAT_KEYS_def stopped_with_5_facts started_after_5_facts
        listenerIsRunning_def)
qed

text \<open>
  C5, amended. setSuppressedKeys may be called in either lifecycle state and installs the
  given keys (integers within the range of a C long) at once. A set installed while
  Stopped does not outlive start: a start that succeeds resets the registry to empty, so
  no event is suppressed until setSuppressedKeys is called again, and the keys installed
  after start are the ones consulted.
\<close>

theorem C5_set_before_start_discarded:
  assumes "wf_listener st" and "length items \<le> MAX_EAT_KEYS"
    and "list_all PyLong_Check items" and "list_all withinCLong items"
  shows "fst (listenerSetEatKeys (PyList items) st) = Inr () \<and>
         registry (snd (listenerSetEatKeys (PyList items) st)) = map asCInt items \<and>
         (\<forall>callable trusted err callback st2.
            listenerStart callable trusted err callback (snd (listenerSetEatKeys (PyList items) st))
              = (Inr (), st2) \<longrightarrow>
            registry st2 = [] \<and>
            (\<forall>pycall seconds type ev r.
               eventCallback pycall seconds st2 type (ev :: 'e cgevent) = Some r \<longrightarrow>
               returnEvent (reached r) = Allow) \<and>
            fst (listenerSetEatKeys (PyList items) st2) = Inr () \<and>
            registry (snd (listenerSetEatKeys (PyList items) st2)) = map asCInt items)"
proof (intro conjI allI impI)
  show "fst (listenerSetEatKeys (PyList items) st) = Inr ()"
    using assms(2,3,4) by (simp add: setEatKeys_result)
  show "registry (snd (listenerSetEatKeys (PyList items) st)) = map asCInt items"
    using assms by (simp add: setEatKeys_registry takeWhile_all)
next
  fix callable trusted err callback st2
  assume start:
    "listenerStart callable trusted err callback (snd (listenerSetEatKeys (PyList items) st))
       = (Inr (), st2)"
  have "wf_listener (snd (listenerSetEatKeys (PyList items) st))"
    using assms(1) by (rule setEatKeys_wf)
  from listenerStart_wf [OF this, of callable trusted err callback] start
  have wf2: "wf_listener st2" by simp
  from listenerStart_success [OF start] show r2: "registry st2 = []" by simp
  show "fst (listenerSetEatKeys (PyList items) st2) = Inr ()"
    using assms(2,3,4) by (simp add: setEatKeys_result)
  show "registry (snd (listenerSetEatKeys (PyList items) st2)) = map asCInt items"
    using wf2 assms(2,3) by (simp add: setEatKeys_registry takeWhile_all)
  fix pycall seconds type and ev :: "'e cgevent" and r
  assume "eventCallback pycall seconds st2 type ev = Some r"
  from eventCallback_reached [OF this] show "returnEvent (reached r) = Allow"
    using wf2 r2 by (simp add: empty_registry_allows)
qed

text \<open>
  C5, amended, from the freshly loaded module with key 5: installed while Stopped, gone
  after start, installed again after start.
\<close>

theorem C5_witness:
  "wf_listener initial_listener \<and> length [PyLong 5 :: real pyobj] \<le> MAX_EAT_KEYS \<and>
   list_all PyLong_Check [PyLong 5 :: real pyobj] \<and>
   list_all withinCLong [PyLong 5 :: real pyobj] \<and>
   listenerStart every_callable True 0 7 stopped_with_5 = (Inr (), started_after_5) \<and>
   registry stopped_with_5 = [5] \<and> registry started_after_5 = [] \<and>
   registry (snd (listenerSetEatKeys (PyList [PyLong 5 :: real pyobj]) started_after_5)) = [5]"
proof -
  have h1: "wf_listener initial_listener"
    by (rule initial_listener_wf)
  have h2: "length [PyLong 5 :: real pyobj] \<le> MAX_EAT_KEYS"
    by (simp add: MAX_EAT_KEYS_def)
  have h3: "list_all PyLong_Check [PyLong 5 :: real pyobj]"
    by simp
  have h5: "list_all withinCLong [PyLong 5 :: real pyobj]"
    by simp
  have h4: "listenerStart every_callable True 0 7 stopped_with_5 = (Inr (), started_after_5)"
    using started_after_5_facts(1) by (simp add: started_after_5_def prod_eq_iff)
  have v: "asCInt (PyLong 5 :: real pyobj) = 5"
    by (simp add: asCInt_def)
  note t = C5_set_before_start_discarded [where ?'e = real, OF h1 h2 h3 h5]
  from t have r1: "registry stopped_with_5 = [5]"
    by (simp add: stopped_with_5_def v)
  from t h4 [unfolded stopped_with_5_def]
  have "registry started_after_5 = [] \<and>
      registry (snd (listenerSetEatKeys (PyList [PyLong 5 :: real pyobj]) started_after_5))
        = map asCInt [PyLong 5 :: real pyobj]"
    by blast
  with h1 h2 h3 h4 h5 r1 show ?thesis by (simp add: v)
qed

text \<open>
  C6, as stated, fails in its last part: the list holding the integer 70000 is accepted
  and 70000 enters the registry, although it is not a value of the platform's key-code
  type.
\<close>

theorem C6_counterexample:
  "fst (listenerSetEatKeys (PyList [PyLong 70000 :: real pyobj]) initial_listener) = Inr () \<and>
   registry (snd (listenerSetEatKeys (PyList [PyLong 70000 :: real pyobj]) initial_listener))
     = [70000] \<and>
   \<not> spec_representableKeyCode 70000"
  by (simp add: setEatKeys_result setEatKeys_registry initial_listener_wf MAX_EAT_KEYS_def
      asCInt_def spec_representableKeyCode_def)

text \<open>
  C6, amended. setSuppressedKeys fails with TooMany exactly when the list is longer than
  1024; for a list within capacity it fails with InvalidEntry exactly when some element
  is not an integer; a list within capacity whose elements are all integers within the
  range of a C long is accepted. An accepted entry is not checked against the key-code
  type: the registry receives each entry's conversion to a C int, which for an integer
  entry is the low 32 bits of its value.
\<close>

theorem C6_errors_and_stored_values:
  "(fst (listenerSetEatKeys (PyList (items :: 'd pyobj list)) st) = Inl TooMany \<longleftrightarrow>
      length items > 1024) \<and>
   (fst (listenerSetEatKeys (PyList items) st) = Inl InvalidEntry \<longleftrightarrow>
      length items \<le> 1024 \<and> (\<exists>item \<in> set items. \<not> PyLong_Check item)) \<and>
   (length items \<le> 1024 \<and> (\<forall>item \<in> set items. PyLong_Check item \<and> withinCLong item) \<longrightarrow>
      fst (listenerSetEatKeys (PyList items) st) = Inr ()) \<and>
   (wf_listener st \<and> fst (listenerSetEatKeys (PyList items) st) = Inr () \<longrightarrow>
      registry (snd (listenerSetEatKeys (PyList items) st)) = map asCInt items \<and>
      (\<forall>v. PyLong v \<in> set items \<longrightarrow> asCInt (PyLong v :: 'd pyobj) = word_of_int v))"
proof -
  have reg: "registry (snd (listenerSetEatKeys (PyList items) st)) = map asCInt items"
    if "wf_listener st" and "length items \<le> MAX_EAT_KEYS" and "list_all PyLong_Check items"
    using that by (simp add: setEatKeys_registry takeWhile_all)
  have low: "asCInt (PyLong v :: 'd pyobj) = word_of_int v"
    if "list_all withinCLong items" and "PyLong v \<in> set items" for v
  proof -
    from that(1) have "\<forall>item \<in> set items. withinCLong item"
      by (simp add: list_all_iff)
    then have "withinCLong (PyLong v :: 'd pyobj)"
      using that(2) by (rule bspec)
    then show ?thesis
      by (simp add: asCInt_in_range)
  qed
  have distinct: "Inl ResultWithErrorSet \<noteq> (Inr () :: pyexc + unit)"
    "(Inl ResultWithErrorSet :: pyexc + unit) \<noteq> Inl TooMany"
    "(Inl ResultWithErrorSet :: pyexc + unit) \<noteq> Inl InvalidEntry"
    by (simp_all add: ResultWithErrorSet_def TooMany_def InvalidEntry_def)
  have a: "fst (listenerSetEatKeys (PyList items) st) = Inl TooMany \<longleftrightarrow> length items > 1024"
    using distinct
    by (auto simp add: setEatKeys_result TooMany_def InvalidEntry_def MAX_EAT_KEYS_def
        ResultWithErrorSet_def)
  have b: "fst (listenerSetEatKeys (PyList items) st) = Inl InvalidEntry \<longleftrightarrow>
      length items \<le> 1024 \<and> (\<exists>item \<in> set items. \<not> PyLong_Check item)"
    by (auto simp add: setEatKeys_result TooMany_def InvalidEntry_def MAX_EAT_KEYS_def
        ResultWithErrorSet_def list_all_iff)
  have c: "fst (listenerSetEatKeys (PyList items) st) = Inr ()"
    if "length items \<le> 1024" and "\<forall>item \<in> set items. PyLong_Check item \<and> withinCLong item"
    using that by (simp add: setEatKeys_result MAX_EAT_KEYS_def list_all_iff)
  have d: "length items \<le> MAX_EAT_KEYS \<and> list_all PyLong_Check items \<and> list_all withinCLong items"
    if "fst (listenerSetEatKeys (PyList items) st) = Inr ()"
    using that
    by (auto simp add: setEatKeys_result ResultWithErrorSet_def split: if_splits)
  from a b c d reg low show ?thesis
    by blast
qed

text \<open>
  C6, amended, at lists of 1024 and 1025 integers, at a list with a float, and at the
  integer \<open>2 ^ 32 + 5\<close>, which is accepted and stored as 5.
\<close>

theorem C6_witness:
  "wf_listener initial_listener \<and>
   fst (listenerSetEatKeys (PyList (replicate 1024 (PyLong 5 :: real pyobj))) initial_listener)
     = Inr () \<and>
   fst (listenerSetEatKeys (PyList (replicate 1025 (PyLong 5 :: real pyobj))) initial_listener)
     = Inl TooMany \<and>
   fst (listenerSetEatKeys (PyList [PyLong 5, PyFloat (1.5 :: real)]) initial_listener)
     = Inl InvalidEntry \<and>
   fst (listenerSetEatKeys (PyList [PyLong (2 ^ 32 + 5) :: real pyobj]) initial_listener)
     = Inr () \<and>
   registry (snd (listenerSetEatKeys (PyList [PyLong (2 ^ 32 + 5) :: real pyobj]) initial_listener))
     = [5]"
proof -
  have wf: "wf_listener initial_listener"
    by (rule initial_listener_wf)
  have a: "fst (listenerSetEatKeys (PyList (replicate 1024 (PyLong 5 :: real pyobj)))
      initial_listener) = Inr ()"
    using C6_errors_and_stored_values
      [of "replicate 1024 (PyLong 5 :: real pyobj)" initial_listener]
    by simp
  have b: "fst (listenerSetEatKeys (PyList (replicate 1025 (PyLong 5 :: real pyobj)))
      initial_listener) = Inl TooMany"
    using C6_errors_and_stored_values
      [of "replicate 1025 (PyLong 5 :: real pyobj)" initial_listener]
    by simp
  have c: "fst (listenerSetEatKeys (PyList [PyLong 5, PyFloat (1.5 :: real)])
      initial_listener) = Inl InvalidEntry"
    using C6_errors_and_stored_values [of "[PyLong 5, PyFloat (1.5 :: real)]" initial_listener]
    by simp
  note t = C6_errors_and_stored_values [of "[PyLong (2 ^ 32 + 5) :: real pyobj]" initial_listener]
  from t have d: "fst (listenerSetEatKeys (PyList [PyLong (2 ^ 32 + 5) :: real pyobj])
      initial_listener) = Inr ()"
    by simp
  from t wf d have e: "registry (snd (listenerSetEatKeys (PyList [PyLong (2 ^ 32 + 5) :: real pyobj])
      initial_listener)) = map asCInt [PyLong (2 ^ 32 + 5) :: real pyobj]"
    and v: "asCInt (PyLong (2 ^ 32 + 5) :: real pyobj) = word_of_int (2 ^ 32 + 5)"
    by simp_all
  from e v have "registry (snd (listenerSetEatKeys (PyList [PyLong (2 ^ 32 + 5) :: real pyobj])
      initial_listener)) = [5]"
    by simp
  with wf a b c d show ?thesis
    by (intro conjI)
qed

text \<open>
  C7. A call to start while the listener is Running fails and leaves every global as it
  was, so no thread is created and the running flag, the stored callback and the registry
  are unchanged; with a callable argument, as the operation's signature requires, the
  error is AlreadyRunning.
\<close>

theorem C7_start_while_running:
  assumes "listenerRunning st \<noteq> 0"
  shows "snd (listenerStart callable trusted err callback st) = st \<and>
         spawned (snd (listenerStart callable trusted err callback st)) = spawned st \<and>
         (callable callback \<longrightarrow>
            fst (listenerStart callable trusted err callback st) = Inl AlreadyRunning)"
  using assms by (simp add: listenerStart_def)

text \<open>
  C7 at a Running listener, started again with another callable.
\<close>

theorem C7_witness:
  "listenerRunning running_with_5 \<noteq> 0 \<and> every_callable 8 \<and>
   listenerStart every_callable True 0 8 running_with_5 = (Inl AlreadyRunning, running_with_5)"
proof -
  have h: "listenerRunning running_with_5 \<noteq> 0"
    by (simp add: running_with_5_def)
  show ?thesis
    using C7_start_while_running [OF h, of every_callable True 0 8] h
    by (simp add: every_callable_def prod_eq_iff)
qed

text \<open>
  C8, as stated, fails. Key 5 is in the registry of a Stopped listener; start is called
  and thread creation fails (\<open>pthread_create\<close> returns 35, \<open>EAGAIN\<close>); the call fails with
  ThreadSpawnFailed, but the registry is not what it was before the call: it is empty.
\<close>

theorem C8_counterexample:
  "registry stopped_with_5 = [5] \<and>
   fst (listenerStart every_callable True 35 7 stopped_with_5) = Inl ThreadSpawnFailed \<and>
   registry (snd (listenerStart every_callable True 35 7 stopped_with_5)) = []"
proof -
  have "fst (listenerStart every_callable True 35 7 stopped_with_5) = Inl ThreadSpawnFailed"
    by (simp add: listenerStart_def every_callable_def Let_def stopped_with_5_facts(3))
  moreover have "registry (snd (listenerStart every_callable True 35 7 stopped_with_5)) = []"
    by (simp add: listenerStart_def every_callable_def Let_def stopped_with_5_facts(3,4)
        registry_def pthread_create_def Py_INCREF_def Py_DECREF_def Py_XDECREF_def)
  ultimately show ?thesis
    by (simp add: stopped_with_5_facts(2))
qed

text \<open>
  C8, amended. When thread creation fails during start, the call fails with
  ThreadSpawnFailed and what start had set up for the session is undone: the reference
  taken on the callback is dropped and no callback remains registered, the mutex is
  destroyed, no thread exists and the listener is still Stopped. The registry is not
  restored: it is left as start reset it, empty, with the array untouched.
\<close>

theorem C8_spawn_failure_rolled_back:
  assumes "callable callback" and "listenerRunning st = 0" and "trusted" and "err \<noteq> 0"
  shows "\<exists>st'. listenerStart callable trusted err callback st = (Inl ThreadSpawnFailed, st') \<and>
           callbackObj st' = None \<and> listenerRunning st' = 0 \<and> \<not> listenerIsRunning st' \<and>
           spawned st' = spawned st \<and> \<not> mutexLive st' \<and> registry st' = [] \<and>
           eatKeys st' = eatKeys st \<and>
           (callbackObj st = None \<longrightarrow> refcnt st' = refcnt st)"
  using assms
  by (auto simp add: listenerStart_def Let_def Py_INCREF_def Py_DECREF_def Py_XDECREF_def
      pthread_create_def listenerIsRunning_def registry_def split: option.splits)

text \<open>
  C8, amended, at the Stopped listener holding key 5, with \<open>pthread_create\<close> returning 35.
\<close>

theorem C8_witness:
  "every_callable 7 \<and> listenerRunning stopped_with_5 = 0 \<and> (35 :: int) \<noteq> 0 \<and>
   callbackObj stopped_with_5 = None \<and> registry stopped_with_5 = [5] \<and>
   (\<exists>st'. listenerStart every_callable True 35 7 stopped_with_5 = (Inl ThreadSpawnFailed, st') \<and>
      callbackObj st' = None \<and> listenerRunning st' = 0 \<and> spawned st' = spawned stopped_with_5 \<and>
      registry st' = [] \<and> refcnt st' = refcnt stopped_with_5)"
proof -
  have h1: "every_callable 7" by (simp add: every_callable_def)
  have h2: "listenerRunning stopped_with_5 = 0" by (rule stopped_with_5_facts)
  have h3: "True" and h4: "(35 :: int) \<noteq> 0" by simp_all
  have h5: "callbackObj stopped_with_5 = None" by (rule stopped_with_5_facts)
  have h6: "registry stopped_with_5 = [5]" by (rule stopped_with_5_facts)
  show ?thesis
    using C8_spawn_failure_rolled_back
      [where callable = every_callable and trusted = True, OF h1 h2 h3 h4] h1 h2 h5 h6
    by auto
qed

text \<open>
  C9. Building the record is total: for every event type, among them those of the mask, the
  handler's dictionary is built (the category string is never \<open>NULL\<close>); and for a type
  that is neither a key, nor a button, nor a motion type, the dictionary holds the
  timestamp and nothing else.
\<close>

theorem C9_translation_total:
  "(\<exists>d. eventDict seconds type ev = Some d) \<and>
   (\<not> isKeyEvent type \<and> \<not> isButtonEvent type \<and> \<not> isMotionEvent type \<longrightarrow>
      eventDict seconds type ev = Some [(''timestamp'', PyFloat (seconds (evTimestamp ev)))])"
  by (simp add: eventDict_total eventDict_other)

text \<open>
  C9 at a flags-changed event (type 12, outside the three categories) stamped at 3
  seconds, and at a key-down event.
\<close>

theorem C9_witness:
  "\<not> isKeyEvent 12 \<and> \<not> isButtonEvent 12 \<and> \<not> isMotionEvent 12 \<and>
   eventDict real_seconds 12 click_event = Some [(''timestamp'', PyFloat 3)] \<and>
   (\<exists>d. eventDict real_seconds kCGEventKeyDown click_event = Some d)"
proof -
  have h: "\<not> isKeyEvent 12 \<and> \<not> isButtonEvent 12 \<and> \<not> isMotionEvent 12"
    by (simp add: isKeyEvent_def isButtonEvent_def isMotionEvent_def event_type_defs)
  show ?thesis
    using C9_translation_total [of real_seconds 12 click_event]
      C9_translation_total [of real_seconds kCGEventKeyDown click_event] h
    by (simp add: click_event_def real_seconds_def)
qed

text \<open>
  C10. For an event of any type other than key-down and key-up the verdict is allow,
  whatever the registry holds and whether or not a callback is registered: no run of the
  handler ends with a suppress verdict, and the handler returns the allow verdict whenever
  the registered callback does not raise SystemExit on the event's record.
\<close>

theorem C10_non_key_events_allowed:
  assumes "\<not> isKeyEvent type"
  shows "\<exists>r. eventCallback pycall seconds st type ev = Some r \<and>
           returnEvent (reached r) = Allow \<and>
           ((\<forall>cb d code. callbackObj st = Some cb \<and> eventDict seconds type ev = Some d \<longrightarrow>
               pycall cb d \<noteq> Inl (SystemExit code)) \<longrightarrow>
            (\<exists>out. r = Returns out))"
proof -
  obtain d where d: "eventDict seconds type ev = Some d"
    using eventDict_total by blast
  from assms have v: "returnEvent_decision st type ev = Allow"
    by (simp add: returnEvent_decision_def)
  show ?thesis
  proof (cases "callbackObj st")
    case None
    then show ?thesis by (simp add: eventCallback_def)
  next
    case (Some cb)
    note run = eventCallback_registered [OF Some d, of pycall]
    show ?thesis
    proof (cases "pycall cb d")
      case (Inr obj)
      with run v show ?thesis by simp
    next
      case (Inl e)
      show ?thesis
      proof (cases "exitCode e")
        case None
        with Inl run v show ?thesis by simp
      next
        case (Some code)
        then have "e = SystemExit code" by (cases e) simp_all
        with Inl Some run v d \<open>callbackObj st = Some cb\<close> show ?thesis by auto
      qed
    qed
  qed
qed

text \<open>
  C10 at a left-mouse-down event whose key-code field reads 5, with 5 in the registry and
  a callback that returns.
\<close>

theorem C10_witness:
  "\<not> isKeyEvent kCGEventLeftMouseDown \<and>
   (\<exists>out. eventCallback returns_None real_seconds running_with_5 kCGEventLeftMouseDown
            (key_event 5) = Some (Returns out) \<and> returnEvent out = Allow)"
proof -
  have h: "\<not> isKeyEvent kCGEventLeftMouseDown"
    by (simp add: isKeyEvent_def event_type_defs)
  have h2: "\<forall>cb d code. callbackObj running_with_5 = Some cb \<and>
      eventDict real_seconds kCGEventLeftMouseDown (key_event 5) = Some d \<longrightarrow>
      returns_None cb d \<noteq> Inl (SystemExit code)"
    by (simp add: returns_None_def)
  from C10_non_key_events_allowed
    [OF h, of returns_None real_seconds running_with_5 "key_event 5"] h2
  have "\<exists>out. eventCallback returns_None real_seconds running_with_5 kCGEventLeftMouseDown
      (key_event 5) = Some (Returns out) \<and> returnEvent out = Allow"
    by auto
  with h show ?thesis by simp
qed

end
